theory Spec2Isabelle
  imports
    Main
    "HOL-Library.Char_ord"
    "HOL-Library.List_Lexorder"
    "HOL-Library.Multiset"
    "HOL-Library.Sublist"
begin

section \<open>Values, rows and files\<close>

text \<open>
  Python text is modelled as \<^typ>\<open>string\<close> holding the UTF-8 bytes of the text. The script
  never indexes a string or takes its length; it tests emptiness, concatenates, replaces the
  ASCII characters \<open>&\<close>, \<open><\<close>, \<open>>\<close> and compares for sorting. On well-formed UTF-8 all of these
  agree with Python's code-point strings (byte-wise lexicographic order of UTF-8 is code-point
  order, and a byte below 0x80 is always a character of its own).

  A cell of a row read by \<open>csv.DictReader\<close> is a string, or \<open>None\<close> where the row was shorter
  than the header.
\<close>

datatype pyval = PyStr string | PyNone

datatype py_error = KeyError | TypeError | UnicodeDecodeError

text \<open>A row is the dict that \<open>DictReader\<close> yields; only string keys are ever looked up.\<close>

type_synonym row = "string \<rightharpoonup> pyval"

text \<open>
  A CSV file is modelled by the table that a \<open>csv.writer\<close> on a file opened with
  \<open>newline=''\<close> is given to produce it: a list of rows, each a list of cells. The file system
  maps a path to the table stored there; \<open>None\<close> is an absent file. What a reader gets from
  the stored table is \<open>read_rows\<close> below.
\<close>

type_synonym table = "string list list"

type_synonym fs = "string \<rightharpoonup> table"

text \<open>Python truthiness of a cell: \<open>None\<close> and the empty string are false.\<close>

fun truthy :: "pyval \<Rightarrow> bool" where
  "truthy (PyStr s) = (s \<noteq> [])"
| "truthy PyNone = False"

text \<open>\<open>d.get(key, '')\<close>\<close>

definition get_default :: "row \<Rightarrow> string \<Rightarrow> pyval" where
  "get_default d k = (case d k of None \<Rightarrow> PyStr [] | Some v \<Rightarrow> v)"

text \<open>\<open>d[key]\<close>, which raises \<open>KeyError\<close> on a missing key.\<close>

definition subscript :: "row \<Rightarrow> string \<Rightarrow> py_error + pyval" where
  "subscript d k = (case d k of None \<Rightarrow> Inl KeyError | Some v \<Rightarrow> Inr v)"

text \<open>
  One dict of \<open>csv.DictReader\<close>: the header zipped with the cells (a later duplicate of a
  field name wins), and \<open>None\<close> under every field name the row is too short for. The entry a
  long row gets under the key \<open>None\<close> is left out: no string key reads it.
\<close>

definition dict_row :: "string list \<Rightarrow> string list \<Rightarrow> row" where
  "dict_row fieldnames r =
     (Map.empty(fieldnames [\<mapsto>] map PyStr r))
       (drop (length r) fieldnames [\<mapsto>] replicate (length fieldnames - length r) PyNone)"

text \<open>
  Both readers open their file with \<open>open(csv_path, 'r', encoding='utf-8')\<close>, without
  \<open>newline=''\<close>, so the text layer translates every line ending before \<open>csv.reader\<close>
  sees it: inside a cell, a carriage return followed by a line feed, and a carriage return
  alone, both arrive as one line feed.
\<close>

fun universal_newlines :: "string \<Rightarrow> string" where
  "universal_newlines [] = []"
| "universal_newlines [c] = (if c = CHR 0x0D then [CHR 0x0A] else [c])"
| "universal_newlines (c # d # cs) =
     (if c = CHR 0x0D \<and> d = CHR 0x0A then CHR 0x0A # universal_newlines cs
      else if c = CHR 0x0D then CHR 0x0A # universal_newlines (d # cs)
      else c # universal_newlines (d # cs))"

text \<open>The rows \<open>csv.reader\<close> yields for a stored table read this way.\<close>

definition read_rows :: "table \<Rightarrow> table" where
  "read_rows f = map (map universal_newlines) f"

text \<open>
  \<open>list(csv.DictReader(f))\<close>: the first row is the header, blank rows after it are skipped.
\<close>

fun dict_reader :: "table \<Rightarrow> row list" where
  "dict_reader [] = []"
| "dict_reader (fieldnames # rows) = map (dict_row fieldnames) (filter (\<lambda>r. r \<noteq> []) rows)"

section \<open>Escaping\<close>

text \<open>\<open>str.replace\<close> for a pattern of one character: every occurrence is replaced.\<close>

definition replace :: "char \<Rightarrow> string \<Rightarrow> string \<Rightarrow> string" where
  "replace old new text = concat (map (\<lambda>c. if c = old then new else [c]) text)"

fun escape_slack_text :: "pyval \<Rightarrow> string" where
  "escape_slack_text PyNone = []"
| "escape_slack_text (PyStr text) =
     (if text = [] then []
      else replace (CHR ''>'') ''&gt;'' (replace (CHR ''<'') ''&lt;'' (replace (CHR ''&'') ''&amp;'' text)))"

text \<open>
  What the escaping makes of one character taken alone; the lemmas on \<open>escape_slack_text\<close>
  compare the three replacements with it.
\<close>

definition escape_char :: "char \<Rightarrow> string" where
  "escape_char c =
     (if c = CHR ''&'' then ''&amp;'' else if c = CHR ''<'' then ''&lt;''
      else if c = CHR ''>'' then ''&gt;'' else [c])"

section \<open>Formatting\<close>

text \<open>The blocks of a Block Kit message, one constructor per shape of dict the script builds.\<close>

datatype block =
    Header string
  | Section string
  | Divider
  | Context string

record message =
  msg_text :: string
  msg_blocks :: "block list"

definition newline :: string where
  "newline = [CHR 0x0A]"

text \<open>The emoji, as UTF-8: U+1F4DA (books), U+1F4C4 (page), U+1F4C5 (calendar).\<close>

definition emoji_books :: string where
  "emoji_books = [CHR 0xF0, CHR 0x9F, CHR 0x93, CHR 0x9A]"

definition emoji_page :: string where
  "emoji_page = [CHR 0xF0, CHR 0x9F, CHR 0x93, CHR 0x84]"

definition emoji_calendar :: string where
  "emoji_calendar = [CHR 0xF0, CHR 0x9F, CHR 0x93, CHR 0x85]"

text \<open>Decimal rendering of a count, as an f-string renders an \<open>int\<close>.\<close>

definition digit_char :: "nat \<Rightarrow> char" where
  "digit_char d = ''0123456789'' ! d"

fun str_of_nat :: "nat \<Rightarrow> string" where
  "str_of_nat n = (if n < 10 then [digit_char n] else str_of_nat (n div 10) @ [digit_char (n mod 10)])"

declare str_of_nat.simps [simp del]

text \<open>The string a cell contributes to an f-string; only truthy cells are ever interpolated.\<close>

fun str_of :: "pyval \<Rightarrow> string" where
  "str_of (PyStr s) = s"
| "str_of PyNone = ''None''"

text \<open>The body of the loop over the papers: the text of one paper's section.\<close>

definition paper_text :: "row \<Rightarrow> string" where
  "paper_text paper =
     (let title = escape_slack_text (get_default paper ''title'');
          authors = escape_slack_text (get_default paper ''authors'');
          journal = escape_slack_text (get_default paper ''journal'');
          doi = get_default paper ''doi'';
          publication_date = get_default paper ''publication_date'';
          t0 = ''*'' @ authors @ ''*'' @ newline @ ''_'' @ title @ ''_'' @ newline;
          t1 = (if truthy doi \<and> journal \<noteq> [] then
                  t0 @ emoji_page @ '' <'' @ str_of doi @ ''|'' @ journal @ ''>''
                else if journal \<noteq> [] then t0 @ emoji_page @ '' '' @ journal
                else t0)
      in if truthy publication_date then
           (if truthy doi \<or> journal \<noteq> [] then
              t1 @ ''  |  '' @ emoji_calendar @ '' '' @ str_of publication_date
            else t1 @ emoji_calendar @ '' '' @ str_of publication_date)
         else t1)"

text \<open>
  \<open>format_slack_message\<close>; the clock is a parameter: \<open>week_end_date\<close> is what
  \<open>datetime.now().strftime("%B %d, %Y")\<close> returns.
\<close>

definition format_slack_message :: "string \<Rightarrow> row list \<Rightarrow> message" where
  "format_slack_message week_end_date papers =
     (let paper_count = length papers;
          paper_word = (if paper_count = 1 then ''paper'' else ''papers'');
          have_word = (if paper_count = 1 then ''has'' else ''have'')
      in \<lparr>msg_text = ''New union papers for the week ending '' @ week_end_date,
          msg_blocks =
            [Header (emoji_books @ '' New Union Papers Detected''),
             Section (''The following *'' @ str_of_nat paper_count @ '' new '' @ paper_word @ ''* ''
                      @ have_word
                      @ '' been added to the <https://economic.github.io/new_unions_papers/|Recent Union Papers> list:''),
             Divider]
            @ map (\<lambda>paper. Section (paper_text paper)) papers
            @ [Divider,
               Context ''_Automated notification from the Union Papers tracking system_'']\<rparr>)"

section \<open>The record store\<close>

text \<open>
  \<open>xs.sort(key=key, reverse=True)\<close>. CPython reverses the list, sorts it stably in ascending
  order of the keys and reverses it again, so records with equal keys keep their order. A list
  of fewer than two elements is never compared; otherwise every key takes part in a comparison,
  and comparing \<open>None\<close> with anything raises \<open>TypeError\<close>. Where no key is \<open>None\<close>,
  \<^term>\<open>str_of\<close> reads the string of a key.
\<close>

definition sort_reverse :: "('a \<Rightarrow> pyval) \<Rightarrow> 'a list \<Rightarrow> py_error + 'a list" where
  "sort_reverse key xs =
     (if length xs < 2 then Inr xs
      else if list_ex (\<lambda>x. key x = PyNone) xs then Inl TypeError
      else Inr (rev (sort_key (\<lambda>x. str_of (key x)) (rev xs))))"

definition read_papers_to_notify :: "fs \<Rightarrow> string \<Rightarrow> py_error + row list" where
  "read_papers_to_notify files csv_path =
     (case files csv_path of
        None \<Rightarrow> Inr []
      | Some f \<Rightarrow>
          sort_reverse (\<lambda>x. get_default x ''publication_date'') (dict_reader (read_rows f)))"

text \<open>The loop \<open>for row in rows: emailed_ids.add(row['openalex_id'])\<close>.\<close>

fun add_ids :: "row list \<Rightarrow> pyval set \<Rightarrow> py_error + pyval set" where
  "add_ids [] emailed_ids = Inr emailed_ids"
| "add_ids (row # rows) emailed_ids =
     (case subscript row ''openalex_id'' of
        Inl e \<Rightarrow> Inl e
      | Inr v \<Rightarrow> add_ids rows (insert v emailed_ids))"

definition read_emailed_papers :: "fs \<Rightarrow> string \<Rightarrow> py_error + pyval set" where
  "read_emailed_papers files csv_path =
     (case files csv_path of
        None \<Rightarrow> Inr {}
      | Some f \<Rightarrow> add_ids (dict_reader (read_rows f)) {})"

text \<open>
  \<open>sorted(emailed_ids)\<close>: ascending order of the strings; a set that holds \<open>None\<close> beside
  another element cannot be compared.
\<close>

definition py_sorted :: "pyval set \<Rightarrow> py_error + pyval list" where
  "py_sorted ids =
     (if PyNone \<in> ids then (if ids = {PyNone} then Inr [PyNone] else Inl TypeError)
      else Inr (map PyStr (sorted_list_of_set (str_of ` ids))))"

text \<open>The cell \<open>csv.writer\<close> writes for a value: \<open>None\<close> is written as the empty string.\<close>

fun cell_of :: "pyval \<Rightarrow> string" where
  "cell_of (PyStr s) = s"
| "cell_of PyNone = []"

text \<open>
  \<open>update_emailed_papers\<close> returns the exception it raised, if any, and the files it leaves.
  The ledger is opened for writing, which empties it, and the header row is written before
  \<open>sorted\<close> is evaluated. The file is opened with \<open>newline=''\<close>: the table stored is the one
  given to the writer, and a later read of it goes through \<^term>\<open>read_rows\<close>.
\<close>

definition update_emailed_papers :: "fs \<Rightarrow> row list \<Rightarrow> string \<Rightarrow> py_error option \<times> fs" where
  "update_emailed_papers files papers csv_path =
     (case read_emailed_papers files csv_path of
        Inl e \<Rightarrow> (Some e, files)
      | Inr emailed_ids \<Rightarrow>
          (case add_ids papers emailed_ids of
             Inl e \<Rightarrow> (Some e, files)
           | Inr ids \<Rightarrow>
               (case py_sorted ids of
                  Inl e \<Rightarrow> (Some e, files(csv_path \<mapsto> [[''openalex_id'']]))
                | Inr sorted_ids \<Rightarrow>
                    (None, files(csv_path \<mapsto>
                       [''openalex_id''] # map (\<lambda>paper_id. [cell_of paper_id]) sorted_ids)))))"

section \<open>The notifier\<close>

text \<open>
  \<open>bytes.decode('utf-8')\<close>: the bytes must be well-formed UTF-8 (no overlong forms, no
  surrogates, nothing above U+10FFFF); the text is then those bytes.
\<close>

definition between :: "nat \<Rightarrow> nat \<Rightarrow> char \<Rightarrow> bool" where
  "between lo hi c = (lo \<le> of_char c \<and> of_char c \<le> hi)"

fun well_formed_utf8 :: "char list \<Rightarrow> bool" where
  "well_formed_utf8 [] = True"
| "well_formed_utf8 (a # bs) =
     (let x = of_char a :: nat in
      if x < 0x80 then well_formed_utf8 bs
      else if 0xC2 \<le> x \<and> x \<le> 0xDF then
        (case bs of b # r \<Rightarrow> between 0x80 0xBF b \<and> well_formed_utf8 r | _ \<Rightarrow> False)
      else if 0xE0 \<le> x \<and> x \<le> 0xEF then
        (case bs of
           b # c # r \<Rightarrow>
             between (if x = 0xE0 then 0xA0 else 0x80) (if x = 0xED then 0x9F else 0xBF) b
             \<and> between 0x80 0xBF c \<and> well_formed_utf8 r
         | _ \<Rightarrow> False)
      else if 0xF0 \<le> x \<and> x \<le> 0xF4 then
        (case bs of
           b # c # d # r \<Rightarrow>
             between (if x = 0xF0 then 0x90 else 0x80) (if x = 0xF4 then 0x8F else 0xBF) b
             \<and> between 0x80 0xBF c \<and> between 0x80 0xBF d \<and> well_formed_utf8 r
         | _ \<Rightarrow> False)
      else False)"

definition decode_utf8 :: "char list \<Rightarrow> py_error + string" where
  "decode_utf8 bs = (if well_formed_utf8 bs then Inr bs else Inl UnicodeDecodeError)"

text \<open>
  What the body of the \<open>try\<close> meets up to \<open>response.read()\<close>: a response with its status and
  the bytes of its body, or an exception, classified by the \<open>except\<close> clause that takes it
  (\<open>HTTPError\<close> with code, reason and the bytes of the error body; another \<open>URLError\<close>; any
  other \<open>Exception\<close>). The network is a parameter: it answers a URL and a message.
\<close>

datatype exn =
    HTTPError nat string "char list"
  | URLError string
  | OtherException string

datatype send_outcome = Response nat "char list" | Raised exn

type_synonym network = "string \<Rightarrow> message \<Rightarrow> send_outcome"

text \<open>
  \<open>send_slack_message\<close>. A body that does not decode raises inside the \<open>try\<close>, where
  \<open>except Exception\<close> takes it. The \<open>HTTPError\<close> handler decodes the error body to print it;
  an exception raised inside a handler is not taken by the other clauses of the same \<open>try\<close>.
\<close>

definition send_slack_message :: "network \<Rightarrow> string \<Rightarrow> message \<Rightarrow> py_error + bool" where
  "send_slack_message net webhook_url msg =
     (case net webhook_url msg of
        Response status body \<Rightarrow>
          (case decode_utf8 body of
             Inl e \<Rightarrow> Inr False
           | Inr response_text \<Rightarrow>
               if status = 200 \<and> response_text = ''ok'' then Inr True else Inr False)
      | Raised (HTTPError code reason body) \<Rightarrow>
          (case decode_utf8 body of
             Inl e \<Rightarrow> Inl e
           | Inr response_text \<Rightarrow> Inr False)
      | Raised (URLError reason) \<Rightarrow> Inr False
      | Raised (OtherException reason) \<Rightarrow> Inr False)"

section \<open>The orchestrator\<close>

text \<open>
  How the process ends: \<open>sys.exit(n)\<close> or falling off the end of \<open>main\<close> (exit code 0), or
  an exception nobody caught (the interpreter prints it and exits with code 1).
\<close>

datatype ending = Exit nat | Uncaught py_error

fun exit_code :: "ending \<Rightarrow> nat" where
  "exit_code (Exit n) = n"
| "exit_code (Uncaught e) = 1"

text \<open>
  A run's result: how it ended, the files it left, and the calls of \<open>send_slack_message\<close> it
  made (URL and message).
\<close>

record run =
  ending :: ending
  files :: fs
  sent :: "(string \<times> message) list"

definition pending_path :: string where
  "pending_path = ''union_papers_to_email.csv''"

definition ledger_path :: string where
  "ledger_path = ''emailed_papers.csv''"

text \<open>
  \<open>main\<close>. The environment is passed in: the files, the value of \<open>SLACK_WEBHOOK_URL\<close>
  (\<open>None\<close> when unset), the network and the formatted current date.
\<close>

definition main :: "fs \<Rightarrow> string option \<Rightarrow> network \<Rightarrow> string \<Rightarrow> run" where
  "main fs0 env_webhook_url net week_end_date =
     (case read_papers_to_notify fs0 pending_path of
        Inl e \<Rightarrow> \<lparr>ending = Uncaught e, files = fs0, sent = []\<rparr>
      | Inr papers \<Rightarrow>
          if papers = [] then \<lparr>ending = Exit 0, files = fs0, sent = []\<rparr>
          else
            (case env_webhook_url of
               None \<Rightarrow> \<lparr>ending = Exit 1, files = fs0, sent = []\<rparr>
             | Some webhook_url \<Rightarrow>
                 if webhook_url = [] then \<lparr>ending = Exit 1, files = fs0, sent = []\<rparr>
                 else
                   (let msg = format_slack_message week_end_date papers in
                    case send_slack_message net webhook_url msg of
                      Inl e \<Rightarrow> \<lparr>ending = Uncaught e, files = fs0, sent = [(webhook_url, msg)]\<rparr>
                    | Inr success \<Rightarrow>
                        if \<not> success then
                          \<lparr>ending = Exit 1, files = fs0, sent = [(webhook_url, msg)]\<rparr>
                        else
                          (case update_emailed_papers fs0 papers ledger_path of
                             (Some e, fs1) \<Rightarrow>
                               \<lparr>ending = Uncaught e, files = fs1, sent = [(webhook_url, msg)]\<rparr>
                           | (None, fs1) \<Rightarrow>
                               \<lparr>ending = Exit 0, files = fs1, sent = [(webhook_url, msg)]\<rparr>))))"

section \<open>Example inputs\<close>

text \<open>A paper with a DOI, no journal and a publication date.\<close>

definition doi_only_paper :: row where
  "doi_only_paper =
     [''openalex_id'' \<mapsto> PyStr ''W100'', ''title'' \<mapsto> PyStr ''T'', ''authors'' \<mapsto> PyStr ''A'',
      ''journal'' \<mapsto> PyStr [], ''doi'' \<mapsto> PyStr ''https://doi.org/x'',
      ''publication_date'' \<mapsto> PyStr ''2024-05-01'']"

text \<open>The pending file of the specification's end-to-end scenario.\<close>

definition example_pending :: table where
  "example_pending =
     [[''openalex_id'', ''title'', ''authors'', ''journal'', ''doi'', ''publication_date''],
      [''W100'', ''T'', ''A'', ''J'', ''https://doi.org/x'', ''2024-05-01'']]"

definition example_url :: string where
  "example_url = ''https://hooks.slack.com/services/T0/B0/x''"

text \<open>An endpoint that accepts, one that answers 500, and one whose error body is not UTF-8.\<close>

definition ok_network :: network where
  "ok_network url msg = Response 200 ''ok''"

definition failing_network :: network where
  "failing_network url msg = Raised (HTTPError 500 ''Internal Server Error'' ''no_service'')"

definition undecodable_network :: network where
  "undecodable_network url msg = Raised (HTTPError 500 ''Internal Server Error'' [CHR 0xFF])"

text \<open>A ledger that already holds the paper of \<^term>\<open>example_pending\<close>.\<close>

definition example_ledger :: table where
  "example_ledger = [[''openalex_id''], [''W100'']]"

text \<open>Three papers as read from a file whose only column is the id, out of order.\<close>

definition three_papers :: "row list" where
  "three_papers = map (dict_row [''openalex_id'']) [[''W3''], [''W1''], [''W2'']]"

text \<open>A pending file with the three dates of the specification's sorting example.\<close>

definition dated_pending :: table where
  "dated_pending =
     [[''openalex_id'', ''publication_date''],
      [''W1'', ''2024-01-01''], [''W2'', ''2024-03-01''], [''W3'', []]]"

text \<open>A pending file whose second row stops before the publication date.\<close>

definition short_row_pending :: table where
  "short_row_pending =
     [[''openalex_id'', ''publication_date''],
      [''W1'', ''2024-01-01''], [''W2'']]"

text \<open>A pending file whose only row stops before the id column.\<close>

definition id_less_pending :: table where
  "id_less_pending = [[''title'', ''openalex_id''], [''T'']]"

text \<open>A paper whose id holds a carriage return.\<close>

definition cr_paper :: row where
  "cr_paper = [''openalex_id'' \<mapsto> PyStr [CHR ''a'', CHR 0x0D, CHR ''b'']]"

section \<open>The paper block\<close>

text \<open>
  A paper without a journal and with a date: no journal segment is emitted, and the separator
  is put before the date exactly when the paper has a DOI.
\<close>

lemma paper_text_no_journal:
  assumes "escape_slack_text (get_default paper ''journal'') = []"
    and "truthy (get_default paper ''publication_date'')"
  shows "paper_text paper =
      ''*'' @ escape_slack_text (get_default paper ''authors'') @ ''*'' @ newline
      @ ''_'' @ escape_slack_text (get_default paper ''title'') @ ''_'' @ newline
      @ (if truthy (get_default paper ''doi'') then ''  |  '' else [])
      @ emoji_calendar @ '' '' @ str_of (get_default paper ''publication_date'')"
  using assms by (simp add: paper_text_def Let_def)

text \<open>
  Claim C1. The date segment should follow a \<open>|\<close> separator only when a journal segment was
  emitted before it. For the paper with a DOI, an empty journal and a date, the code emits no
  journal segment and still puts the separator before the date: the third line of the block
  is \<open>"  |  "\<close>, the calendar emoji and the date.
\<close>

theorem paper_text_doi_without_journal:
  "paper_text doi_only_paper =
     ''*A*'' @ newline @ ''_T_'' @ newline @ ''  |  '' @ emoji_calendar @ '' 2024-05-01''
   \<and> msg_blocks (format_slack_message d [doi_only_paper]) ! 3 =
     Section (''*A*'' @ newline @ ''_T_'' @ newline @ ''  |  '' @ emoji_calendar @ '' 2024-05-01'')"
proof -
  have "paper_text doi_only_paper =
     ''*A*'' @ newline @ ''_T_'' @ newline @ ''  |  '' @ emoji_calendar @ '' 2024-05-01''"
    by (simp add: paper_text_def doi_only_paper_def get_default_def replace_def)
  moreover have "msg_blocks (format_slack_message d [doi_only_paper]) ! 3
      = Section (paper_text doi_only_paper)"
    by (simp add: format_slack_message_def)
  ultimately show ?thesis by simp
qed

section \<open>Delivery\<close>

text \<open>What \<open>send_slack_message\<close> returns when the request is answered.\<close>

lemma send_slack_message_response:
  "net webhook_url msg = Response status body \<Longrightarrow>
     send_slack_message net webhook_url msg = Inr (status = 200 \<and> body = ''ok'')"
  by (auto simp: send_slack_message_def decode_utf8_def split: sum.splits)

lemma send_slack_message_True_iff:
  "send_slack_message net webhook_url msg = Inr True
     \<longleftrightarrow> net webhook_url msg = Response 200 ''ok''"
  by (auto simp: send_slack_message_def decode_utf8_def
      split: send_outcome.splits exn.splits sum.splits)

text \<open>The exceptions that are turned into \<open>False\<close>.\<close>

lemma send_slack_message_caught:
  "net webhook_url msg = Raised (URLError r) \<or> net webhook_url msg = Raised (OtherException r)
     \<or> (net webhook_url msg = Raised (HTTPError c r b) \<and> well_formed_utf8 b)
   \<Longrightarrow> send_slack_message net webhook_url msg = Inr False"
  by (auto simp: send_slack_message_def decode_utf8_def split: sum.splits)

text \<open>
  Claim C3. Every error of the transport should come back as \<open>False\<close>. An HTTP error status
  whose body is not UTF-8 does not: the handler of \<open>HTTPError\<close> decodes the body to print it,
  and the \<open>UnicodeDecodeError\<close> leaves \<open>send_slack_message\<close> uncaught.
\<close>

theorem send_slack_message_undecodable_error_body:
  "send_slack_message undecodable_network webhook_url msg = Inl UnicodeDecodeError"
  by (simp add: send_slack_message_def undecodable_network_def decode_utf8_def)

section \<open>The run\<close>

text \<open>
  Claim C4. When there are pending papers, the webhook URL is set and \<open>send_slack_message\<close>
  returns \<open>False\<close>, the process exits with code 1 and no file is written: the ledger is as
  it was, present or absent.
\<close>

theorem main_delivery_failure:
  assumes "read_papers_to_notify fs0 pending_path = Inr papers"
    and "papers \<noteq> []"
    and "env = Some webhook_url" and "webhook_url \<noteq> []"
    and "send_slack_message net webhook_url (format_slack_message d papers) = Inr False"
  shows "ending (main fs0 env net d) = Exit 1
       \<and> exit_code (ending (main fs0 env net d)) = 1
       \<and> files (main fs0 env net d) = fs0
       \<and> files (main fs0 env net d) ledger_path = fs0 ledger_path"
  using assms by (simp add: main_def)

theorem main_delivery_failure_witness:
  "ending (main [pending_path \<mapsto> example_pending] (Some example_url) failing_network
      ''May 01, 2024'') = Exit 1
   \<and> files (main [pending_path \<mapsto> example_pending] (Some example_url) failing_network
      ''May 01, 2024'') ledger_path = None"
proof -
  let ?fs = "[pending_path \<mapsto> example_pending]"
  let ?papers = "[dict_row (hd example_pending) (example_pending ! 1)]"
  have 1: "read_papers_to_notify ?fs pending_path = Inr ?papers"
    by (simp add: read_papers_to_notify_def read_rows_def sort_reverse_def example_pending_def)
  have 2: "?papers \<noteq> []" by simp
  have 3: "example_url \<noteq> []" by (simp add: example_url_def)
  have 4: "send_slack_message failing_network example_url
      (format_slack_message ''May 01, 2024'' ?papers) = Inr False"
    by (simp add: send_slack_message_def failing_network_def decode_utf8_def between_def)
  have 5: "?fs ledger_path = None"
    by (simp add: pending_path_def ledger_path_def)
  from main_delivery_failure [OF 1 2 refl 3 4] 5 show ?thesis by simp
qed

text \<open>
  Claim C8. An absent pending file reads as the empty list and an absent ledger as the empty
  set; neither raises.
\<close>

theorem missing_files_read_as_empty:
  "(fs0 csv_path = None \<longrightarrow> read_papers_to_notify fs0 csv_path = Inr [])
   \<and> (fs0 csv_path = None \<longrightarrow> read_emailed_papers fs0 csv_path = Inr {})"
  by (simp add: read_papers_to_notify_def read_emailed_papers_def)

theorem missing_files_read_as_empty_witness:
  "Map.empty pending_path = (None :: table option)
   \<and> read_papers_to_notify Map.empty pending_path = Inr []
   \<and> read_emailed_papers Map.empty ledger_path = Inr {}"
  using missing_files_read_as_empty [of Map.empty pending_path]
    missing_files_read_as_empty [of Map.empty ledger_path] by simp

text \<open>
  Claim C10. The message handed to \<open>send_slack_message\<close> is determined by the pending file,
  the environment and the date: two runs whose file systems agree on the pending file send
  the same requests, whatever their ledgers hold.
\<close>

theorem payload_independent_of_ledger:
  assumes "fs1 pending_path = fs2 pending_path"
  shows "sent (main fs1 env net d) = sent (main fs2 env net d)"
proof -
  have "read_papers_to_notify fs1 pending_path = read_papers_to_notify fs2 pending_path"
    using assms by (simp add: read_papers_to_notify_def)
  then show ?thesis
    by (simp add: main_def Let_def split: sum.splits option.splits prod.splits)
qed

theorem payload_independent_of_ledger_witness:
  "[pending_path \<mapsto> example_pending] ledger_path \<noteq>
     [pending_path \<mapsto> example_pending, ledger_path \<mapsto> example_ledger] ledger_path
   \<and> sent (main [pending_path \<mapsto> example_pending] (Some example_url) ok_network ''May 01, 2024'')
     = sent (main [pending_path \<mapsto> example_pending, ledger_path \<mapsto> example_ledger]
         (Some example_url) ok_network ''May 01, 2024'')
   \<and> length (sent (main [pending_path \<mapsto> example_pending] (Some example_url) ok_network
         ''May 01, 2024'')) = 1"
proof -
  let ?fs1 = "[pending_path \<mapsto> example_pending]"
  let ?fs2 = "[pending_path \<mapsto> example_pending, ledger_path \<mapsto> example_ledger]"
  have ne: "pending_path \<noteq> ledger_path"
    by (simp add: pending_path_def ledger_path_def)
  have h: "?fs1 pending_path = ?fs2 pending_path"
    using ne by simp
  have l: "?fs1 ledger_path \<noteq> ?fs2 ledger_path"
    using ne by simp
  have n: "length (sent (main ?fs1 (Some example_url) ok_network ''May 01, 2024'')) = 1"
    by (simp add: main_def read_papers_to_notify_def read_rows_def sort_reverse_def
        example_pending_def example_url_def send_slack_message_def ok_network_def decode_utf8_def Let_def
        split: prod.splits option.splits)
  from payload_independent_of_ledger [of ?fs1 ?fs2 "Some example_url" ok_network "''May 01, 2024''"] h l n
  show ?thesis by blast
qed

section \<open>The summary block\<close>

text \<open>
  Claim C9. The second block of the message is the summary; for \<open>N\<close> papers it reads
  "N new paper* has been added" exactly when \<open>N = 1\<close>, and "N new papers* have been added"
  exactly when \<open>N \<noteq> 1\<close>.
\<close>

theorem summary_block_wording:
  "(msg_blocks (format_slack_message d papers) ! 1 =
      Section (''The following *'' @ str_of_nat (length papers)
        @ '' new paper* has been added to the <https://economic.github.io/new_unions_papers/|Recent Union Papers> list:''))
     = (length papers = 1)
   \<and> (msg_blocks (format_slack_message d papers) ! 1 =
      Section (''The following *'' @ str_of_nat (length papers)
        @ '' new papers* have been added to the <https://economic.github.io/new_unions_papers/|Recent Union Papers> list:''))
     = (length papers \<noteq> 1)"
  by (simp add: format_slack_message_def Let_def)

section \<open>Sorting the pending papers\<close>

lemma sort_reverse_no_None:
  assumes "\<forall>x \<in> set xs. key x \<noteq> PyNone"
  shows "sort_reverse key xs = Inr (rev (sort_key (\<lambda>x. str_of (key x)) (rev xs)))"
proof (cases "length xs < 2")
  case True
  then have "xs = [] \<or> (\<exists>x. xs = [x])"
    by (cases xs) (auto simp: length_Suc_conv)
  then have "rev (sort_key (\<lambda>x. str_of (key x)) (rev xs)) = xs"
    by auto
  with True show ?thesis
    by (simp add: sort_reverse_def)
next
  case False
  with assms show ?thesis
    by (simp add: sort_reverse_def list_ex_iff)
qed

lemma descending_rev_sort_key:
  "sorted_wrt (\<lambda>a b. b \<le> a) (map k (rev (sort_key k xs)))"
proof -
  have "sorted (map k (sort_key k xs))" by simp
  then have "sorted_wrt (\<lambda>a b. b \<le> a) (rev (map k (sort_key k xs)))"
    by (simp add: sorted_wrt_rev)
  then show ?thesis by (simp add: rev_map)
qed

lemma stable_rev_sort_key_rev:
  "filter (\<lambda>x. k x = v) (rev (sort_key k (rev xs))) = filter (\<lambda>x. k x = v) xs"
  by (simp add: sort_key_stable flip: rev_filter)

lemma descending_empty_last:
  "sorted_wrt (\<lambda>a b. b \<le> a) (map k xs) \<Longrightarrow>
     xs = filter (\<lambda>x. k x \<noteq> ([] :: string)) xs @ filter (\<lambda>x. k x = []) xs"
proof (induction xs)
  case Nil
  then show ?case by simp
next
  case (Cons x xs)
  show ?case
  proof (cases "k x = []")
    case True
    with Cons.prems have "\<forall>y \<in> set xs. k y = []" by auto
    then have "filter (\<lambda>x. k x \<noteq> []) xs = []" "filter (\<lambda>x. k x = []) xs = xs"
      by (simp_all add: filter_empty_conv filter_id_conv)
    with True show ?thesis by simp
  next
    case False
    with Cons show ?thesis by simp
  qed
qed

text \<open>
  Where every row read from the file has a string as publication date (possibly the empty
  one), \<open>read_papers_to_notify\<close> returns the rows rearranged so that the dates descend in
  lexical order; the rows with an empty date come last, and rows with the same date keep the
  order of the file.
\<close>

lemma read_papers_sorted_when_dated:
  assumes "fs0 csv_path = Some f"
    and "\<forall>r \<in> set (dict_reader (read_rows f)). get_default r ''publication_date'' \<noteq> PyNone"
  shows "\<exists>papers. read_papers_to_notify fs0 csv_path = Inr papers
     \<and> mset papers = mset (dict_reader (read_rows f))
     \<and> sorted_wrt (\<lambda>a b. b \<le> a) (map (\<lambda>r. str_of (get_default r ''publication_date'')) papers)
     \<and> papers = filter (\<lambda>r. str_of (get_default r ''publication_date'') \<noteq> []) papers
               @ filter (\<lambda>r. str_of (get_default r ''publication_date'') = []) papers
     \<and> (\<forall>v. filter (\<lambda>r. str_of (get_default r ''publication_date'') = v) papers
            = filter (\<lambda>r. str_of (get_default r ''publication_date'') = v)
                (dict_reader (read_rows f)))"
proof -
  let ?k = "\<lambda>r. str_of (get_default r ''publication_date'')"
  let ?rows = "dict_reader (read_rows f)"
  let ?ps = "rev (sort_key ?k (rev ?rows))"
  have r: "read_papers_to_notify fs0 csv_path = Inr ?ps"
    using assms by (simp add: read_papers_to_notify_def sort_reverse_no_None)
  have m: "mset ?ps = mset ?rows" by simp
  have s: "sorted_wrt (\<lambda>a b. b \<le> a) (map ?k ?ps)"
    by (rule descending_rev_sort_key)
  have e: "?ps = filter (\<lambda>r. ?k r \<noteq> []) ?ps @ filter (\<lambda>r. ?k r = []) ?ps"
    by (rule descending_empty_last [OF s])
  have t: "\<forall>v. filter (\<lambda>r. ?k r = v) ?ps = filter (\<lambda>r. ?k r = v) ?rows"
    by (simp add: stable_rev_sort_key_rev)
  from r m s e t show ?thesis by blast
qed

text \<open>The three dates of the specification's example come out latest first, the empty one last.\<close>

lemma read_papers_three_dates:
  "map_sum id (map (\<lambda>r. get_default r ''publication_date''))
        (read_papers_to_notify [pending_path \<mapsto> dated_pending] pending_path)
      = Inr [PyStr ''2024-03-01'', PyStr ''2024-01-01'', PyStr '''']"
  by (simp add: read_papers_to_notify_def read_rows_def dated_pending_def sort_reverse_def
      dict_row_def get_default_def)

text \<open>
  Claim C5. Every list of paper records should come back sorted by publication date,
  descending, the records without a date last. A row that stops before the date column has
  no date; \<open>csv.DictReader\<close> gives it \<open>None\<close> there, \<open>.get('publication_date', '')\<close> returns
  that \<open>None\<close> and not the default, and the sort raises \<open>TypeError\<close>: nothing is returned and
  the run ends on the uncaught exception.
\<close>

theorem read_papers_to_notify_short_row:
  "get_default (dict_row (hd short_row_pending) (short_row_pending ! 2)) ''publication_date''
     = PyNone
   \<and> read_papers_to_notify [pending_path \<mapsto> short_row_pending] pending_path = Inl TypeError
   \<and> ending (main [pending_path \<mapsto> short_row_pending] env net d) = Uncaught TypeError"
proof -
  have 1: "get_default (dict_row (hd short_row_pending) (short_row_pending ! 2))
      ''publication_date'' = PyNone"
    by (simp add: short_row_pending_def dict_row_def get_default_def)
  have 2: "read_papers_to_notify [pending_path \<mapsto> short_row_pending] pending_path
      = Inl TypeError"
    by (simp add: read_papers_to_notify_def read_rows_def short_row_pending_def sort_reverse_def
        dict_row_def get_default_def)
  have 3: "ending (main [pending_path \<mapsto> short_row_pending] env net d) = Uncaught TypeError"
    by (simp add: main_def 2)
  from 1 2 3 show ?thesis by simp
qed

section \<open>The ledger\<close>

subsection \<open>What the text layer does to a cell\<close>

lemma universal_newlines_no_CR:
  "CHR 0x0D \<notin> set s \<Longrightarrow> universal_newlines s = s"
  by (induction s rule: universal_newlines.induct) auto

lemma universal_newlines_free: "CHR 0x0D \<notin> set (universal_newlines s)"
  by (induction s rule: universal_newlines.induct) auto

lemma read_rows_cells:
  "r \<in> set (read_rows f) \<Longrightarrow> c \<in> set r \<Longrightarrow> CHR 0x0D \<notin> set c"
  by (auto simp: read_rows_def universal_newlines_free)

lemma map_upds_Some:
  "(m(ks [\<mapsto>] vs)) k = Some v \<Longrightarrow> m k = Some v \<or> v \<in> set vs"
  by (auto simp: map_upds_def dest!: map_of_SomeD set_zip_rightD)

lemma dict_row_string:
  "dict_row fieldnames r k = Some (PyStr s) \<Longrightarrow> s \<in> set r"
  by (auto simp: dict_row_def dest!: map_upds_Some)

lemma dict_reader_rows:
  "d \<in> set (dict_reader t) \<Longrightarrow> \<exists>h r. r \<in> set t \<and> d = dict_row h r"
  by (cases t) auto

lemma add_ids_subset:
  "add_ids rows ids = Inr ids' \<Longrightarrow> v \<in> ids' \<Longrightarrow>
     v \<in> ids \<or> (\<exists>d \<in> set rows. d ''openalex_id'' = Some v)"
proof (induction rows arbitrary: ids)
  case Nil
  then show ?case by simp
next
  case (Cons d rows)
  from Cons.prems(1) obtain w where w: "d ''openalex_id'' = Some w"
    and rest: "add_ids rows (insert w ids) = Inr ids'"
    by (auto simp: subscript_def split: option.splits sum.splits)
  from Cons.IH [OF rest Cons.prems(2)] w show ?case by auto
qed

text \<open>No id that \<open>read_emailed_papers\<close> returns holds a carriage return.\<close>

lemma read_emailed_papers_no_CR:
  assumes "read_emailed_papers files0 p = Inr ids" and "PyStr s \<in> ids"
  shows "CHR 0x0D \<notin> set s"
proof -
  from assms obtain f where f: "files0 p = Some f"
    and a: "add_ids (dict_reader (read_rows f)) {} = Inr ids"
    by (auto simp: read_emailed_papers_def split: option.splits)
  from add_ids_subset [OF a assms(2)]
  obtain d where "d \<in> set (dict_reader (read_rows f))" "d ''openalex_id'' = Some (PyStr s)"
    by auto
  then obtain h r where "r \<in> set (read_rows f)" "dict_row h r ''openalex_id'' = Some (PyStr s)"
    by (auto dest: dict_reader_rows)
  then show ?thesis
    by (auto dest: dict_row_string read_rows_cells)
qed

subsection \<open>Papers that carry their id\<close>

text \<open>
  The lemmas of this subsection are about a ledger that reads as a set of strings and papers
  that each carry a string under \<open>openalex_id\<close>.
\<close>

lemma add_ids_strings:
  "\<forall>r \<in> set rows. \<exists>s. r ''openalex_id'' = Some (PyStr s) \<Longrightarrow>
     add_ids rows ids =
       Inr (ids \<union> PyStr ` (\<lambda>r. str_of (get_default r ''openalex_id'')) ` set rows)"
proof (induction rows arbitrary: ids)
  case Nil
  then show ?case by simp
next
  case (Cons r rows)
  from Cons.prems obtain s where s: "r ''openalex_id'' = Some (PyStr s)" by auto
  from Cons.prems have "\<forall>r \<in> set rows. \<exists>s. r ''openalex_id'' = Some (PyStr s)" by simp
  from Cons.IH [OF this, of "insert (PyStr s) ids"] s show ?case
    by (simp add: subscript_def get_default_def)
qed

lemma add_ids_finite:
  "add_ids rows ids = Inr ids' \<Longrightarrow> finite ids \<Longrightarrow> finite ids'"
  by (induction rows arbitrary: ids) (auto split: sum.splits)

lemma read_emailed_papers_finite:
  "read_emailed_papers files0 p = Inr ids \<Longrightarrow> finite ids"
  by (auto simp: read_emailed_papers_def split: option.splits dest: add_ids_finite)

lemma py_sorted_strings:
  "py_sorted (PyStr ` E) = Inr (map PyStr (sorted_list_of_set E))"
proof -
  have "str_of ` PyStr ` E = E" by (simp add: image_image)
  moreover have "PyNone \<notin> PyStr ` E" by auto
  ultimately show ?thesis by (simp add: py_sorted_def)
qed

lemma dict_reader_ledger:
  "dict_reader ([''openalex_id''] # map (\<lambda>s. [s]) xs) = map (\<lambda>s. [''openalex_id'' \<mapsto> PyStr s]) xs"
  by (simp add: dict_row_def filter_map o_def)

lemma read_rows_ledger:
  "read_rows ([''openalex_id''] # map (\<lambda>s. [s]) xs)
     = [''openalex_id''] # map (\<lambda>s. [s]) (map universal_newlines xs)"
  by (simp add: read_rows_def o_def)

text \<open>Reading a ledger as it was written: each id comes back with its line endings translated.\<close>

lemma read_written_ledger:
  "read_emailed_papers (files0(p \<mapsto> [''openalex_id''] # map (\<lambda>s. [s]) xs)) p
     = Inr (PyStr ` universal_newlines ` set xs)"
proof -
  let ?ys = "map universal_newlines xs"
  have "\<forall>r \<in> set (map (\<lambda>s. [''openalex_id'' \<mapsto> PyStr s]) ?ys).
      \<exists>s. r ''openalex_id'' = Some (PyStr s)"
    by simp
  from add_ids_strings [OF this, of "{}"]
  have "add_ids (map (\<lambda>s. [''openalex_id'' \<mapsto> PyStr s]) ?ys) {}
      = Inr (PyStr ` universal_newlines ` set xs)"
    by (simp add: image_image get_default_def)
  moreover have "dict_reader (read_rows ([''openalex_id''] # map (\<lambda>s. [s]) xs))
      = map (\<lambda>s. [''openalex_id'' \<mapsto> PyStr s]) ?ys"
    by (simp only: read_rows_ledger dict_reader_ledger)
  ultimately show ?thesis
    by (simp add: read_emailed_papers_def del: dict_reader.simps)
qed

lemma update_emailed_papers_strings:
  assumes "read_emailed_papers files0 p = Inr (PyStr ` E)"
    and "\<forall>paper \<in> set papers. \<exists>s. paper ''openalex_id'' = Some (PyStr s)"
  shows "update_emailed_papers files0 papers p =
           (None, files0(p \<mapsto> [''openalex_id''] # map (\<lambda>s. [s])
              (sorted_list_of_set (E \<union> (\<lambda>r. str_of (get_default r ''openalex_id'')) ` set papers))))"
proof -
  let ?N = "(\<lambda>r. str_of (get_default r ''openalex_id'')) ` set papers"
  have "add_ids papers (PyStr ` E) = Inr (PyStr ` (E \<union> ?N))"
    using add_ids_strings [OF assms(2)] by (simp add: image_Un)
  with assms(1) show ?thesis
    by (simp add: update_emailed_papers_def py_sorted_strings o_def)
qed

lemma finite_ledger_ids:
  assumes "read_emailed_papers files0 p = Inr (PyStr ` E)"
  shows "finite E"
proof -
  have "finite (PyStr ` E)" using assms by (rule read_emailed_papers_finite)
  then show ?thesis by (rule finite_imageD) (simp add: inj_on_def)
qed

text \<open>
  For such a ledger and such papers the file is rewritten as the header row followed by one
  row per id, the ids being those read before together with those of the papers, each once, in
  ascending order. Reading the file back returns these ids with their line endings translated,
  which is the same set when no id holds a carriage return.
\<close>

lemma update_emailed_papers_well_typed:
  assumes "read_emailed_papers files0 p = Inr (PyStr ` E)"
    and "\<forall>paper \<in> set papers. \<exists>s. paper ''openalex_id'' = Some (PyStr s)"
  shows "\<exists>ids. update_emailed_papers files0 papers p =
                  (None, files0(p \<mapsto> [''openalex_id''] # map (\<lambda>s. [s]) ids))
     \<and> set ids = E \<union> (\<lambda>r. str_of (get_default r ''openalex_id'')) ` set papers
     \<and> sorted ids \<and> distinct ids
     \<and> read_emailed_papers (snd (update_emailed_papers files0 papers p)) p =
         Inr (PyStr ` universal_newlines `
               (E \<union> (\<lambda>r. str_of (get_default r ''openalex_id'')) ` set papers))"
proof -
  let ?N = "(\<lambda>r. str_of (get_default r ''openalex_id'')) ` set papers"
  let ?ids = "sorted_list_of_set (E \<union> ?N)"
  have fin: "finite (E \<union> ?N)" using finite_ledger_ids [OF assms(1)] by simp
  have u: "update_emailed_papers files0 papers p =
      (None, files0(p \<mapsto> [''openalex_id''] # map (\<lambda>s. [s]) ?ids))"
    using assms by (rule update_emailed_papers_strings)
  have s: "set ?ids = E \<union> ?N" using fin by simp
  have "read_emailed_papers (snd (update_emailed_papers files0 papers p)) p
      = Inr (PyStr ` universal_newlines ` set ?ids)"
    unfolding u snd_conv by (rule read_written_ledger)
  with u s show ?thesis by (metis sorted_sorted_list_of_set distinct_sorted_list_of_set)
qed

lemma read_back_without_carriage_returns:
  assumes "read_emailed_papers files0 p = Inr (PyStr ` E)"
    and "\<forall>paper \<in> set papers. \<exists>s. paper ''openalex_id'' = Some (PyStr s) \<and> CHR 0x0D \<notin> set s"
  shows "read_emailed_papers (snd (update_emailed_papers files0 papers p)) p =
         Inr (PyStr ` (E \<union> (\<lambda>r. str_of (get_default r ''openalex_id'')) ` set papers))"
proof -
  let ?N = "(\<lambda>r. str_of (get_default r ''openalex_id'')) ` set papers"
  have typed: "\<forall>paper \<in> set papers. \<exists>s. paper ''openalex_id'' = Some (PyStr s)"
    using assms(2) by blast
  have "\<forall>s \<in> E. CHR 0x0D \<notin> set s"
    using read_emailed_papers_no_CR [OF assms(1)] by blast
  moreover have "\<forall>s \<in> ?N. CHR 0x0D \<notin> set s"
    using assms(2) by (fastforce simp: get_default_def)
  ultimately have "\<forall>s \<in> E \<union> ?N. universal_newlines s = s"
    by (auto intro: universal_newlines_no_CR)
  then have "universal_newlines ` (E \<union> ?N) = (\<lambda>s. s) ` (E \<union> ?N)"
    by (intro image_cong refl) simp
  then have "universal_newlines ` (E \<union> ?N) = E \<union> ?N"
    by simp
  with update_emailed_papers_well_typed [OF assms(1) typed] show ?thesis by auto
qed

text \<open>The ids of the specification's round-trip example, written to an absent ledger.\<close>

lemma update_emailed_papers_three_papers:
  "update_emailed_papers Map.empty three_papers ledger_path
     = (None, [ledger_path \<mapsto> [[''openalex_id''], [''W1''], [''W2''], [''W3'']]])
   \<and> read_emailed_papers [ledger_path \<mapsto> [[''openalex_id''], [''W1''], [''W2''], [''W3'']]]
        ledger_path = Inr {PyStr ''W1'', PyStr ''W2'', PyStr ''W3''}"
proof -
  have "update_emailed_papers Map.empty three_papers ledger_path
       = (None, [ledger_path \<mapsto> [[''openalex_id''], [''W1''], [''W2''], [''W3'']]])"
    by (simp add: update_emailed_papers_def read_emailed_papers_def three_papers_def dict_row_def
        subscript_def py_sorted_def)
  moreover have "read_emailed_papers
      [ledger_path \<mapsto> [[''openalex_id''], [''W1''], [''W2''], [''W3'']]] ledger_path
       = Inr {PyStr ''W1'', PyStr ''W2'', PyStr ''W3''}"
    by (auto simp add: read_emailed_papers_def read_rows_def dict_row_def subscript_def)
  ultimately show ?thesis by simp
qed

text \<open>
  An id with a carriage return is stored as it is and read back with a line feed in its
  place: the writer opens the ledger with \<open>newline=''\<close>, the reader does not.
\<close>

lemma read_back_carriage_return:
  "update_emailed_papers Map.empty [cr_paper] ledger_path
     = (None, [ledger_path \<mapsto> [[''openalex_id''], [[CHR ''a'', CHR 0x0D, CHR ''b'']]]])
   \<and> read_emailed_papers (snd (update_emailed_papers Map.empty [cr_paper] ledger_path))
        ledger_path = Inr {PyStr [CHR ''a'', CHR 0x0A, CHR ''b'']}"
proof -
  have u: "update_emailed_papers Map.empty [cr_paper] ledger_path
     = (None, [ledger_path \<mapsto> [[''openalex_id''], [[CHR ''a'', CHR 0x0D, CHR ''b'']]]])"
    by (simp add: update_emailed_papers_def read_emailed_papers_def cr_paper_def subscript_def
        py_sorted_def)
  have "read_emailed_papers
      [ledger_path \<mapsto> [[''openalex_id''], [[CHR ''a'', CHR 0x0D, CHR ''b'']]]] ledger_path
      = Inr {PyStr [CHR ''a'', CHR 0x0A, CHR ''b'']}"
    by (simp add: read_emailed_papers_def read_rows_def dict_row_def subscript_def)
  with u show ?thesis by simp
qed

text \<open>
  For such a ledger and such papers every id read before the update is read after it, and the
  ids stored in the file are distinct.
\<close>

lemma ledger_grows_well_typed:
  assumes "read_emailed_papers files0 p = Inr (PyStr ` E)"
    and "\<forall>paper \<in> set papers. \<exists>s. paper ''openalex_id'' = Some (PyStr s)"
  shows "\<exists>E' ids. read_emailed_papers (snd (update_emailed_papers files0 papers p)) p = Inr (PyStr ` E')
     \<and> E \<subseteq> E'
     \<and> snd (update_emailed_papers files0 papers p) p = Some ([''openalex_id''] # map (\<lambda>s. [s]) ids)
     \<and> distinct ids"
proof -
  let ?N = "(\<lambda>r. str_of (get_default r ''openalex_id'')) ` set papers"
  let ?ids = "sorted_list_of_set (E \<union> ?N)"
  let ?after = "snd (update_emailed_papers files0 papers p)"
  have fin: "finite (E \<union> ?N)" using finite_ledger_ids [OF assms(1)] by simp
  have u: "?after = files0(p \<mapsto> [''openalex_id''] # map (\<lambda>s. [s]) ?ids)"
    using update_emailed_papers_strings [OF assms] by simp
  have r: "read_emailed_papers ?after p = Inr (PyStr ` universal_newlines ` set ?ids)"
    unfolding u by (rule read_written_ledger)
  have same: "\<forall>s \<in> E. universal_newlines s = s"
    using read_emailed_papers_no_CR [OF assms(1)] by (auto intro: universal_newlines_no_CR)
  have "E \<subseteq> universal_newlines ` set ?ids"
  proof
    fix s assume s: "s \<in> E"
    then have "s \<in> set ?ids" using fin by simp
    moreover have "universal_newlines s = s" using same s by simp
    ultimately show "s \<in> universal_newlines ` set ?ids" by (metis imageI)
  qed
  moreover note \<open>E \<subseteq> universal_newlines ` set ?ids\<close>
  moreover have "?after p = Some ([''openalex_id''] # map (\<lambda>s. [s]) ?ids)"
    unfolding u by simp
  moreover have "distinct ?ids" by simp
  ultimately show ?thesis using r by blast
qed

subsection \<open>A paper without an id\<close>


text \<open>
  Claim C7. No id should ever leave the ledger. In the run below the ledger holds \<open>W100\<close>,
  the pending file has one row that stops before the id column, and the endpoint accepts the
  message. The run ends on the uncaught \<open>TypeError\<close> of \<open>sorted\<close>, after the ledger was
  emptied for writing: \<open>W100\<close> was readable before the run and is not after it.
\<close>

theorem main_empties_ledger:
  "read_emailed_papers [pending_path \<mapsto> id_less_pending, ledger_path \<mapsto> example_ledger]
      ledger_path = Inr {PyStr ''W100''}
   \<and> ending (main [pending_path \<mapsto> id_less_pending, ledger_path \<mapsto> example_ledger]
        (Some example_url) ok_network d) = Uncaught TypeError
   \<and> files (main [pending_path \<mapsto> id_less_pending, ledger_path \<mapsto> example_ledger]
        (Some example_url) ok_network d) ledger_path = Some [[''openalex_id'']]
   \<and> read_emailed_papers
        (files (main [pending_path \<mapsto> id_less_pending, ledger_path \<mapsto> example_ledger]
          (Some example_url) ok_network d)) ledger_path = Inr {}"
proof -
  let ?fs = "[pending_path \<mapsto> id_less_pending, ledger_path \<mapsto> example_ledger]"
  let ?paper = "dict_row [''title'', ''openalex_id''] [''T'']"
  have ne: "pending_path \<noteq> ledger_path"
    by (simp add: pending_path_def ledger_path_def)
  have 1: "read_papers_to_notify ?fs pending_path = Inr [?paper]"
    using ne by (simp add: read_papers_to_notify_def read_rows_def id_less_pending_def
        sort_reverse_def)
  have 2: "subscript ?paper ''openalex_id'' = Inr PyNone"
    by (simp add: subscript_def dict_row_def)
  have 3: "read_emailed_papers ?fs ledger_path = Inr {PyStr ''W100''}"
    by (simp add: read_emailed_papers_def read_rows_def example_ledger_def dict_row_def
        subscript_def)
  have 4: "update_emailed_papers ?fs [?paper] ledger_path
     = (Some TypeError, ?fs(ledger_path \<mapsto> [[''openalex_id'']]))"
    by (simp add: update_emailed_papers_def 2 3 py_sorted_def)
  have 5: "send_slack_message ok_network example_url (format_slack_message d [?paper]) = Inr True"
    by (simp add: send_slack_message_def ok_network_def decode_utf8_def)
  have 6: "example_url \<noteq> []" by (simp add: example_url_def)
  have m: "main ?fs (Some example_url) ok_network d
      = \<lparr>ending = Uncaught TypeError, files = ?fs(ledger_path \<mapsto> [[''openalex_id'']]),
         sent = [(example_url, format_slack_message d [?paper])]\<rparr>"
    by (simp add: main_def 1 4 5 6 Let_def)
  have 7: "read_emailed_papers (?fs(ledger_path \<mapsto> [[''openalex_id'']])) ledger_path = Inr {}"
    by (simp add: read_emailed_papers_def read_rows_def)
  from 3 7 show ?thesis unfolding m by simp
qed

section \<open>Escaping, character by character\<close>

lemma escape_char_special:
  "escape_char (CHR ''&'') = ''&amp;''"
  "escape_char (CHR ''<'') = ''&lt;''"
  "escape_char (CHR ''>'') = ''&gt;''"
  by (simp_all add: escape_char_def)

lemma escape_char_plain:
  "c \<noteq> CHR ''&'' \<Longrightarrow> c \<noteq> CHR ''<'' \<Longrightarrow> c \<noteq> CHR ''>'' \<Longrightarrow> escape_char c = [c]"
  by (simp add: escape_char_def)

lemma escape_char_cases:
  obtains "c = CHR ''&''" | "c = CHR ''<''" | "c = CHR ''>''"
  | "c \<noteq> CHR ''&''" "c \<noteq> CHR ''<''" "c \<noteq> CHR ''>''"
  by blast

lemma replace_append: "replace old new (xs @ ys) = replace old new xs @ replace old new ys"
  by (simp add: replace_def)

lemma replace_Cons: "replace old new (c # cs) = (if c = old then new else [c]) @ replace old new cs"
  by (simp add: replace_def)

lemma replace_Nil: "replace old new [] = []"
  by (simp add: replace_def)

lemma three_replaces:
  "replace (CHR ''>'') ''&gt;'' (replace (CHR ''<'') ''&lt;'' (replace (CHR ''&'') ''&amp;'' inp))
     = concat (map escape_char inp)"
  by (induction inp) (simp_all add: replace_Nil replace_Cons replace_append escape_char_def)

lemma escape_slack_text_chars:
  "escape_slack_text (PyStr inp) = concat (map escape_char inp)"
  by (simp add: three_replaces)

lemma escape_contains:
  assumes "c \<in> set inp"
  shows "sublist (escape_char c) (concat (map escape_char inp))"
proof -
  from assms obtain ps ss where "inp = ps @ c # ss"
    by (auto dest: split_list)
  then show ?thesis by simp
qed

lemma prefix_escape_plain:
  "prefix q (concat (map escape_char inp)) \<Longrightarrow> CHR ''&'' \<notin> set q \<Longrightarrow> prefix q inp"
proof (induction inp arbitrary: q)
  case Nil
  then show ?case by simp
next
  case (Cons a inp)
  show ?case
  proof (cases q)
    case Nil
    then show ?thesis by simp
  next
    case (Cons b q')
    with Cons.prems have "b = a \<and> prefix q' (concat (map escape_char inp))"
      by (cases a rule: escape_char_cases) (auto simp: escape_char_special escape_char_plain)
    with Cons.IH [of q'] Cons.prems(2) Cons show ?thesis by simp
  qed
qed

lemma double_escape_from_input:
  "sublist ''&amp;amp;'' (concat (map escape_char inp)) \<Longrightarrow> sublist ''&amp;'' inp"
proof (induction inp)
  case Nil
  then show ?case by simp
next
  case (Cons a inp)
  let ?e = "concat (map escape_char inp)"
  from Cons.prems
  have "(a = CHR ''&'' \<and> prefix ''amp;'' ?e) \<or> sublist ''&amp;amp;'' ?e"
    by (cases a rule: escape_char_cases)
      (auto simp: escape_char_special escape_char_plain sublist_Cons_right)
  then show ?case
  proof
    assume "a = CHR ''&'' \<and> prefix ''amp;'' ?e"
    then have "a = CHR ''&''" "prefix ''amp;'' inp"
      by (auto intro: prefix_escape_plain)
    then have "prefix ''&amp;'' (a # inp)" by simp
    then show ?thesis by (rule prefix_imp_sublist)
  next
    assume "sublist ''&amp;amp;'' ?e"
    then have "sublist ''&amp;'' inp" by (rule Cons.IH)
    then show ?thesis by (simp add: sublist_Cons_right)
  qed
qed

lemma double_escape_of_entity:
  assumes "sublist ''&amp;'' inp"
  shows "sublist ''&amp;amp;'' (concat (map escape_char inp))"
proof -
  from assms obtain ps ss where "inp = ps @ ''&amp;'' @ ss"
    by (auto simp: sublist_def)
  then have "concat (map escape_char inp)
      = concat (map escape_char ps) @ ''&amp;amp;'' @ concat (map escape_char ss)"
    by (simp add: escape_char_special escape_char_plain)
  then show ?thesis by (metis sublist_appendI)
qed

text \<open>
  Claim C2, as stated, says that the output never contains \<open>&amp;amp;\<close>. The input
  \<open>&amp;\<close> contains an ampersand and its escaped form is \<open>&amp;amp;\<close>.
\<close>

theorem escape_double_escaped_counterexample:
  "CHR ''&'' \<in> set ''&amp;'' \<and> sublist ''&amp;amp;'' (escape_slack_text (PyStr ''&amp;''))"
  by (simp add: replace_def)

text \<open>
  Claim C2, amended. An input that contains \<open>&\<close>, \<open><\<close> or \<open>>\<close> gives an output that
  contains \<open>&amp;\<close>, \<open>&lt;\<close> or \<open>&gt;\<close> respectively. The replacements are made in the
  order \<open>&\<close>, \<open><\<close>, \<open>>\<close>, and their result is the substitution of each character on its
  own: no entity that the function inserted is escaped again. The output contains
  \<open>&amp;amp;\<close> exactly when the input already contains \<open>&amp;\<close>.
\<close>

theorem escape_slack_text_entities:
  "(CHR ''&'' \<in> set inp \<longrightarrow> sublist ''&amp;'' (escape_slack_text (PyStr inp)))
   \<and> (CHR ''<'' \<in> set inp \<longrightarrow> sublist ''&lt;'' (escape_slack_text (PyStr inp)))
   \<and> (CHR ''>'' \<in> set inp \<longrightarrow> sublist ''&gt;'' (escape_slack_text (PyStr inp)))
   \<and> escape_slack_text (PyStr inp) =
       replace (CHR ''>'') ''&gt;'' (replace (CHR ''<'') ''&lt;'' (replace (CHR ''&'') ''&amp;'' inp))
   \<and> escape_slack_text (PyStr inp) =
       concat (map (\<lambda>c. if c = CHR ''&'' then ''&amp;'' else if c = CHR ''<'' then ''&lt;''
                          else if c = CHR ''>'' then ''&gt;'' else [c]) inp)
   \<and> (sublist ''&amp;amp;'' (escape_slack_text (PyStr inp)) \<longleftrightarrow> sublist ''&amp;'' inp)"
proof -
  have e: "escape_slack_text (PyStr inp) = concat (map escape_char inp)"
    by (rule escape_slack_text_chars)
  have a: "CHR ''&'' \<in> set inp \<longrightarrow> sublist ''&amp;'' (escape_slack_text (PyStr inp))"
    unfolding e using escape_contains [of "CHR ''&''" inp] by (simp add: escape_char_def)
  have l: "CHR ''<'' \<in> set inp \<longrightarrow> sublist ''&lt;'' (escape_slack_text (PyStr inp))"
    unfolding e using escape_contains [of "CHR ''<''" inp] by (simp add: escape_char_def)
  have g: "CHR ''>'' \<in> set inp \<longrightarrow> sublist ''&gt;'' (escape_slack_text (PyStr inp))"
    unfolding e using escape_contains [of "CHR ''>''" inp] by (simp add: escape_char_def)
  have o: "escape_slack_text (PyStr inp) =
       replace (CHR ''>'') ''&gt;'' (replace (CHR ''<'') ''&lt;'' (replace (CHR ''&'') ''&amp;'' inp))"
    by (simp add: replace_Nil)
  have c: "escape_slack_text (PyStr inp) =
       concat (map (\<lambda>c. if c = CHR ''&'' then ''&amp;'' else if c = CHR ''<'' then ''&lt;''
                          else if c = CHR ''>'' then ''&gt;'' else [c]) inp)"
    unfolding e escape_char_def ..
  have d: "sublist ''&amp;amp;'' (escape_slack_text (PyStr inp)) \<longleftrightarrow> sublist ''&amp;'' inp"
    unfolding e by (blast intro: double_escape_from_input double_escape_of_entity)
  from a l g o c d show ?thesis by blast
qed

theorem escape_slack_text_entities_witness:
  "CHR ''&'' \<in> set ''A&B <&amp;>'' \<and> CHR ''<'' \<in> set ''A&B <&amp;>''
   \<and> CHR ''>'' \<in> set ''A&B <&amp;>'' \<and> sublist ''&amp;'' ''A&B <&amp;>''
   \<and> sublist ''&amp;'' (escape_slack_text (PyStr ''A&B <&amp;>''))
   \<and> sublist ''&lt;'' (escape_slack_text (PyStr ''A&B <&amp;>''))
   \<and> sublist ''&gt;'' (escape_slack_text (PyStr ''A&B <&amp;>''))
   \<and> sublist ''&amp;amp;'' (escape_slack_text (PyStr ''A&B <&amp;>''))
   \<and> \<not> sublist ''&amp;amp;'' (escape_slack_text (PyStr ''A&B''))"
proof -
  have 1: "CHR ''&'' \<in> set ''A&B <&amp;>''" by simp
  have 2: "CHR ''<'' \<in> set ''A&B <&amp;>''" by simp
  have 3: "CHR ''>'' \<in> set ''A&B <&amp;>''" by simp
  have 4: "sublist ''&amp;'' ''A&B <&amp;>''" by (simp add: sublist_Cons_right)
  have 5: "\<not> sublist ''&amp;'' ''A&B''" by (simp add: sublist_Cons_right)
  from escape_slack_text_entities [of "''A&B <&amp;>''"] escape_slack_text_entities [of "''A&B''"]
    1 2 3 4 5
  show ?thesis by blast
qed

end
